theory Spec2Isabelle
  imports Main "HOL-Library.Word" "HOL-Library.AList"
begin

unbundle bit_operations_syntax

section \<open>Bytes, byte order and Go slices\<close>

type_synonym byte = "8 word"

text \<open>
  \<^verbatim>\<open>binary.BigEndian.Uint32(b)\<close> and \<^verbatim>\<open>binary.LittleEndian.Uint16/32/64(b)\<close> of
  \<^verbatim>\<open>encoding/binary\<close>: the bytes of \<open>b\<close> shifted to their places and or-ed together.
  Every call site below passes a slice of exactly the width read.
\<close>

definition BigEndian_Uint32 :: "byte list \<Rightarrow> 32 word" where
  "BigEndian_Uint32 b =
     ucast (b ! 3) OR push_bit 8 (ucast (b ! 2)) OR push_bit 16 (ucast (b ! 1))
       OR push_bit 24 (ucast (b ! 0))"

definition LittleEndian_Uint16 :: "byte list \<Rightarrow> 16 word" where
  "LittleEndian_Uint16 b = ucast (b ! 0) OR push_bit 8 (ucast (b ! 1))"

definition LittleEndian_Uint32 :: "byte list \<Rightarrow> 32 word" where
  "LittleEndian_Uint32 b =
     ucast (b ! 0) OR push_bit 8 (ucast (b ! 1)) OR push_bit 16 (ucast (b ! 2))
       OR push_bit 24 (ucast (b ! 3))"

definition LittleEndian_Uint64 :: "byte list \<Rightarrow> 64 word" where
  "LittleEndian_Uint64 b =
     ucast (b ! 0) OR push_bit 8 (ucast (b ! 1)) OR push_bit 16 (ucast (b ! 2))
       OR push_bit 24 (ucast (b ! 3)) OR push_bit 32 (ucast (b ! 4))
       OR push_bit 40 (ucast (b ! 5)) OR push_bit 48 (ucast (b ! 6))
       OR push_bit 56 (ucast (b ! 7))"

text \<open>\<^verbatim>\<open>bytes.IndexByte(b, c)\<close>: the index of the first \<open>c\<close> in \<open>b\<close>; \<open>None\<close> is Go's -1.\<close>

fun IndexByte :: "byte list \<Rightarrow> byte \<Rightarrow> nat option" where
  "IndexByte [] c = None"
| "IndexByte (x # xs) c = (if x = c then Some 0 else map_option Suc (IndexByte xs c))"

text \<open>\<^verbatim>\<open>string(b)\<close>: a Go string is the same bytes, here as 8-bit characters.\<close>

definition string_of_bytes :: "byte list \<Rightarrow> string" where
  "string_of_bytes b = map (\<lambda>x. char_of (unat x)) b"

text \<open>
  What a Go call does: it returns a value, returns an error made by \<^verbatim>\<open>errors.New\<close>
  (with its message), or panics at run time (index or slice bounds out of range).
\<close>

datatype 'a outcome = Ok 'a | Err string | Panic

text \<open>
  The slice expression \<^verbatim>\<open>s[lo:hi]\<close>; \<open>None\<close> is the run-time panic. Go checks
  \<open>hi\<close> against the capacity, which is at least the length; the check here is against
  the length, so whatever passes here passes in Go.
\<close>

definition slice_expr :: "'a list \<Rightarrow> nat \<Rightarrow> nat \<Rightarrow> 'a list option" where
  "slice_expr s lo hi = (if lo \<le> hi \<and> hi \<le> length s then Some (take (hi - lo) (drop lo s)) else None)"

section \<open>PostgreSQL and generic classifiers\<close>

text \<open>
  \<^verbatim>\<open>PostgresV1.MatchType\<close>; the context and the logger play no part. The slice
  expression \<^verbatim>\<open>reqBuf[4:8]\<close> is the one place that can panic.
\<close>

definition ProtocolVersion :: "32 word" where
  "ProtocolVersion = 0x00030000"

definition PostgresV1_MatchType :: "byte list \<Rightarrow> bool outcome" where
  "PostgresV1_MatchType reqBuf =
     (if length reqBuf < 8 then Ok False
      else (case slice_expr reqBuf 4 8 of
              None \<Rightarrow> Panic
            | Some bs \<Rightarrow>
                let version = BigEndian_Uint32 bs
                in if version = 80877103 then Ok True else Ok (version = ProtocolVersion)))"

text \<open>
  The value a reader of the wire format gives to a run of bytes, most significant first:
  positional notation in base 256, with no bit operation in it.
\<close>

definition big_endian_value :: "byte list \<Rightarrow> nat" where
  "big_endian_value bs = foldl (\<lambda>acc b. acc * 256 + unat b) 0 bs"


section \<open>MySQL handshake response decoder\<close>

definition CLIENT_PLUGIN_AUTH :: "32 word" where
  "CLIENT_PLUGIN_AUTH = 0x080000"

definition CLIENT_CONNECT_WITH_DB :: "32 word" where
  "CLIENT_CONNECT_WITH_DB = 0x08"

definition CLIENT_CONNECT_ATTRS :: "32 word" where
  "CLIENT_CONNECT_ATTRS = 0x0100000"

definition CLIENT_ZSTD_COMPRESSION_ALGORITHM :: "32 word" where
  "CLIENT_ZSTD_COMPRESSION_ALGORITHM = 0x010000"

definition CLIENT_PLUGIN_AUTH_LENENC_CLIENT_DATA :: "32 word" where
  "CLIENT_PLUGIN_AUTH_LENENC_CLIENT_DATA = 0x0200000"

text \<open>
  \<^verbatim>\<open>models.MySQLHandshakeResponse\<close>, with the fields the decoder assigns.
  \<open>ConnectAttributes\<close> is a Go map: \<open>None\<close> is the nil map of a packet whose attributes
  were never decoded, \<open>Some m\<close> the map made by \<^verbatim>\<open>make\<close>, as an association list with
  one entry per key.
\<close>

record MySQLHandshakeResponse =
  CapabilityFlags :: "32 word"
  MaxPacketSize :: "32 word"
  CharacterSet :: byte
  Reserved :: "byte list"
  Username :: string
  AuthData :: "byte list"
  Database :: string
  AuthPluginName :: string
  ConnectAttributes :: "(string \<times> string) list option"
  ZstdCompressionLevel :: byte

text \<open>The zero value \<^verbatim>\<open>&models.MySQLHandshakeResponse{}\<close>; \<open>Reserved\<close> is a \<^verbatim>\<open>[23]byte\<close>.\<close>

definition zero_packet :: MySQLHandshakeResponse where
  "zero_packet = \<lparr>CapabilityFlags = 0, MaxPacketSize = 0, CharacterSet = 0,
     Reserved = replicate 23 0, Username = [], AuthData = [], Database = [],
     AuthPluginName = [], ConnectAttributes = None, ZstdCompressionLevel = 0\<rparr>"

text \<open>
  \<^verbatim>\<open>decodeLengthEncodedInteger\<close> returns \<open>(length, isNull, bytesRead)\<close>. The length is a
  Go \<^verbatim>\<open>int\<close>, taken at its width of 64 bits (linux on amd64 or arm64), so the
  eight-byte form is read as a signed value.
\<close>

definition decodeLengthEncodedInteger :: "byte list \<Rightarrow> int \<times> bool \<times> nat" where
  "decodeLengthEncodedInteger b =
     (if length b = 0 then (0, True, 0)
      else if b ! 0 = 0xfb then (0, True, 1)
      else if b ! 0 = 0xfc then
        (if length b < 3 then (0, False, 0)
         else (uint (LittleEndian_Uint16 (take 2 (drop 1 b))), False, 3))
      else if b ! 0 = 0xfd then
        (if length b < 4 then (0, False, 0)
         else (uint (ucast (b ! 1) OR push_bit 8 (ucast (b ! 2))
                 OR push_bit 16 (ucast (b ! 3)) :: 64 word), False, 4))
      else if b ! 0 = 0xfe then
        (if length b < 9 then (0, False, 0)
         else (sint (LittleEndian_Uint64 (take 8 (drop 1 b))), False, 9))
      else (uint (b ! 0), False, 1))"

text \<open>
  One round of the attribute loop (lines 102 to 120 of the decoder), from the remaining
  attribute bytes and the map so far to the bytes and the map after the round.
  \<^verbatim>\<open>attributesData[n:]\<close> cannot fail: \<open>n\<close> is 0 or a width the length check covered.
  \<^verbatim>\<open>attributesData[:keyLength]\<close> followed by \<^verbatim>\<open>attributesData[keyLength:]\<close> panics when
  \<open>keyLength\<close> is negative or exceeds the length (the first of the two already, when it
  exceeds the capacity too); the same holds for the value.
\<close>

definition attribute_round ::
  "byte list \<Rightarrow> (string \<times> string) list \<Rightarrow> (byte list \<times> (string \<times> string) list) outcome" where
  "attribute_round attributesData attrs =
     (case decodeLengthEncodedInteger attributesData of (keyLength, isNull, n) \<Rightarrow>
        if isNull then Err ''malformed handshake response packet: null length encoded integer for connection attribute key''
        else let attributesData = drop n attributesData in
          if keyLength < 0 \<or> int (length attributesData) < keyLength then Panic
          else let key = string_of_bytes (take (nat keyLength) attributesData);
                   attributesData = drop (nat keyLength) attributesData in
            (case decodeLengthEncodedInteger attributesData of (valueLength, isNull, n) \<Rightarrow>
               if isNull then Err ''malformed handshake response packet: null length encoded integer for connection attribute value''
               else let attributesData = drop n attributesData in
                 if valueLength < 0 \<or> int (length attributesData) < valueLength then Panic
                 else let val = string_of_bytes (take (nat valueLength) attributesData);
                          attributesData = drop (nat valueLength) attributesData in
                   Ok (attributesData, AList.update key val attrs)))"

text \<open>
  The loop \<^verbatim>\<open>for len(attributesData) > 0\<close>. A round can leave the bytes as they were (a
  0xfc, 0xfd or 0xfe prefix with too few bytes after it reads as length 0 in 0 bytes), so
  the loop need not end: \<open>None\<close> is the run that never returns.
\<close>

partial_function (option) attribute_loop ::
  "byte list \<Rightarrow> (string \<times> string) list \<Rightarrow> (string \<times> string) list outcome option" where
  "attribute_loop attributesData attrs =
     (if length attributesData > 0 then
        (case attribute_round attributesData attrs of
           Ok (attributesData', attrs') \<Rightarrow> attribute_loop attributesData' attrs'
         | Err e \<Rightarrow> Some (Err e)
         | Panic \<Rightarrow> Some Panic)
      else Some (Ok attrs))"

declare attribute_loop.simps [code]

text \<open>
  \<^verbatim>\<open>decodeHandshakeResponse\<close>, cut at the places where the source goes from one field
  to the next; each part takes the packet so far and the remaining \<open>data\<close>. The parts are
  given last field first.

  Lines 123 to 132: the zstd level.
\<close>

definition decode_zstd ::
  "MySQLHandshakeResponse \<Rightarrow> byte list \<Rightarrow> MySQLHandshakeResponse outcome option" where
  "decode_zstd packet data =
     (if length data > 0 then
        (if CapabilityFlags packet AND CLIENT_ZSTD_COMPRESSION_ALGORITHM \<noteq> 0 then
           (if length data < 1 then Some (Err ''handshake response packet too short for ZSTD compression level'')
            else Some (Ok (packet\<lparr>ZstdCompressionLevel := data ! 0\<rparr>)))
         else Some (Ok packet))
      else Some (Ok packet))"

text \<open>
  Lines 86 to 122: the connection attributes. \<^verbatim>\<open>data[:totalLength]\<close> followed by
  \<^verbatim>\<open>data[totalLength:]\<close> panics when \<open>totalLength\<close> is negative or exceeds the length.
\<close>

definition decode_attributes ::
  "MySQLHandshakeResponse \<Rightarrow> byte list \<Rightarrow> MySQLHandshakeResponse outcome option" where
  "decode_attributes packet data =
     (if CapabilityFlags packet AND CLIENT_CONNECT_ATTRS \<noteq> 0 then
        (if length data < 4 then Some (Err ''handshake response packet too short for connection attributes'')
         else (case decodeLengthEncodedInteger data of (totalLength, isNull, n) \<Rightarrow>
           if isNull \<or> n = 0 then Some (Err ''error decoding total length of connection attributes'')
           else let data = drop n data in
             if totalLength < 0 \<or> int (length data) < totalLength then Some Panic
             else let attributesData = take (nat totalLength) data;
                      data = drop (nat totalLength) data in
               (case attribute_loop attributesData [] of
                  None \<Rightarrow> None
                | Some (Ok attrs) \<Rightarrow> decode_zstd (packet\<lparr>ConnectAttributes := Some attrs\<rparr>) data
                | Some (Err e) \<Rightarrow> Some (Err e)
                | Some Panic \<Rightarrow> Some Panic)))
      else decode_zstd packet data)"

text \<open>Lines 77 to 84: the authentication plugin name.\<close>

definition decode_plugin_name ::
  "MySQLHandshakeResponse \<Rightarrow> byte list \<Rightarrow> MySQLHandshakeResponse outcome option" where
  "decode_plugin_name packet data =
     (if CapabilityFlags packet AND CLIENT_PLUGIN_AUTH \<noteq> 0 then
        (case IndexByte data 0x00 of
           None \<Rightarrow> Some (Err ''malformed handshake response packet: missing null terminator for AuthPluginName'')
         | Some idx \<Rightarrow>
             decode_attributes (packet\<lparr>AuthPluginName := string_of_bytes (take idx data)\<rparr>)
               (drop (idx + 1) data))
      else decode_attributes packet data)"

text \<open>Lines 69 to 75: the database name; without a terminator the field is passed over.\<close>

definition decode_database ::
  "MySQLHandshakeResponse \<Rightarrow> byte list \<Rightarrow> MySQLHandshakeResponse outcome option" where
  "decode_database packet data =
     (if CapabilityFlags packet AND CLIENT_CONNECT_WITH_DB \<noteq> 0 then
        (case IndexByte data 0x00 of
           Some idx \<Rightarrow>
             decode_plugin_name (packet\<lparr>Database := string_of_bytes (take idx data)\<rparr>)
               (drop (idx + 1) data)
         | None \<Rightarrow> decode_plugin_name packet data)
      else decode_plugin_name packet data)"

text \<open>
  Lines 52 to 67: the authentication data. \<^verbatim>\<open>data[0]\<close> panics on an empty slice and
  \<^verbatim>\<open>data[2:]\<close> on one shorter than 2. \<^verbatim>\<open>data[:authLen]\<close> is checked against the
  capacity, not the length: \<open>slack\<close> is what the backing array holds after the end of the
  buffer (empty when the buffer fills its array), and the slice may reach into it.
\<close>

definition decode_auth_data ::
  "byte list \<Rightarrow> MySQLHandshakeResponse \<Rightarrow> byte list \<Rightarrow> MySQLHandshakeResponse outcome option" where
  "decode_auth_data slack packet data =
     (if CapabilityFlags packet AND CLIENT_PLUGIN_AUTH_LENENC_CLIENT_DATA \<noteq> 0 then
        (if length data = 0 then Some Panic
         else let len = unat (data ! 0); data = drop 1 data in
           if len > 0 then
             (if length data < len then Some (Err ''handshake response packet too short for auth data'')
              else decode_database (packet\<lparr>AuthData := take len data\<rparr>) (drop len data))
           else decode_database packet data)
      else
        (if length data = 0 then Some Panic
         else let authLen = unat (data ! 0) in
           if length data < 2 then Some Panic
           else let data = drop 2 data in
             if length data + length slack < authLen then Some Panic
             else decode_database (packet\<lparr>AuthData := take authLen (data @ slack)\<rparr>) data))"

text \<open>Lines 31 to 43: the fields at fixed places, and the data after them.\<close>

definition decode_fixed :: "byte list \<Rightarrow> MySQLHandshakeResponse \<times> byte list" where
  "decode_fixed data =
     (let packet = zero_packet\<lparr>CapabilityFlags := LittleEndian_Uint32 (take 4 data)\<rparr>;
          data = drop 4 data;
          packet = packet\<lparr>MaxPacketSize := LittleEndian_Uint32 (take 4 data)\<rparr>;
          data = drop 4 data;
          packet = packet\<lparr>CharacterSet := data ! 0\<rparr>;
          data = drop 1 data;
          packet = packet\<lparr>Reserved := take 23 data\<rparr>;
          data = drop 23 data
      in (packet, data))"

text \<open>
  The whole function: the length check of line 27, the fixed fields, the user name of
  lines 45 to 50, and on to the authentication data.
\<close>

definition decodeHandshakeResponse ::
  "byte list \<Rightarrow> byte list \<Rightarrow> MySQLHandshakeResponse outcome option" where
  "decodeHandshakeResponse slack data =
     (if length data < 32 then Some (Err ''handshake response packet too short'')
      else (case decode_fixed data of (packet, data) \<Rightarrow>
        (case IndexByte data 0x00 of
           None \<Rightarrow> Some (Err ''malformed handshake response packet: missing null terminator for Username'')
         | Some idx \<Rightarrow>
             decode_auth_data slack (packet\<lparr>Username := string_of_bytes (take idx data)\<rparr>)
               (drop (idx + 1) data))))"

text \<open>
  The handshake response of the specification's MySQL scenario, with its 20 bytes of
  authentication data left open: capabilities 8D A6 0F 00, maximum packet size
  00 00 00 01, character set 21, 23 zero bytes, "root", the length byte 14 and the
  authentication data, "test", "mysql_native_password", the attribute length 0C and the
  pair 03 "foo" 03 "bar".
\<close>

definition handshake_scenario :: "byte list \<Rightarrow> byte list" where
  "handshake_scenario auth =
     [0x8D, 0xA6, 0x0F, 0x00, 0x00, 0x00, 0x00, 0x01, 0x21,
      0, 0, 0, 0, 0, 0, 0, 0, 0, 0, 0, 0, 0, 0, 0, 0, 0, 0, 0, 0, 0, 0, 0,
      0x72, 0x6F, 0x6F, 0x74, 0x00, 0x14]
     @ auth
     @ [0x74, 0x65, 0x73, 0x74, 0x00,
        0x6D, 0x79, 0x73, 0x71, 0x6C, 0x5F, 0x6E, 0x61, 0x74, 0x69, 0x76, 0x65, 0x5F,
        0x70, 0x61, 0x73, 0x73, 0x77, 0x6F, 0x72, 0x64, 0x00,
        0x0C, 0x03, 0x66, 0x6F, 0x6F, 0x03, 0x62, 0x61, 0x72]"

section \<open>YAML session files\<close>

text \<open>
  The files on disk: a path to the content of the file there, if there is one. The
  operating system calls of the source succeed on it (a file that exists can be opened, a
  missing one can be created); what is left to fail is \<^verbatim>\<open>ValidatePath\<close>, opening
  a missing file for reading, and the context.
\<close>

type_synonym files = "string \<rightharpoonup> byte list"

text \<open>\<^verbatim>\<open>filepath.Join(path, fileName+".yaml")\<close>, for a clean, non-empty \<open>path\<close>.\<close>

definition yaml_file :: "string \<Rightarrow> string \<Rightarrow> string" where
  "yaml_file path fileName = path @ ''/'' @ fileName @ ''.yaml''"

text \<open>The document separator \<^verbatim>\<open>[]byte("---\n")\<close>.\<close>

definition separator :: "byte list" where
  "separator = [0x2D, 0x2D, 0x2D, 0x0A]"

text \<open>
  \<^verbatim>\<open>CreateYamlFile\<close>: true when the file was missing and has just been created empty.
  \<^verbatim>\<open>ValidatePath\<close> is declared outside these files and is a parameter here.
\<close>

definition CreateYamlFile ::
  "(string \<Rightarrow> string outcome) \<Rightarrow> files \<Rightarrow> string \<Rightarrow> string \<Rightarrow> bool outcome \<times> files" where
  "CreateYamlFile ValidatePath fs path fileName =
     (case ValidatePath (yaml_file path fileName) of
        Err e \<Rightarrow> (Err e, fs)
      | Panic \<Rightarrow> (Panic, fs)
      | Ok yamlPath \<Rightarrow>
          (if fs yamlPath = None then (Ok True, fs(yamlPath \<mapsto> []))
           else (Ok False, fs)))"

text \<open>
  \<^verbatim>\<open>WriteFile\<close>. The file is opened with \<^verbatim>\<open>O_WRONLY|O_CREATE|O_TRUNC\<close>, which empties
  it, and \<open>data\<close> is then written through \<^verbatim>\<open>ctxWriter\<close>: with a cancelled context
  nothing is written and the cancellation error is dropped. \<open>cancelled\<close> says whether the
  context is done during the call.
\<close>

definition WriteFile ::
  "(string \<Rightarrow> string outcome) \<Rightarrow> bool \<Rightarrow> files \<Rightarrow> string \<Rightarrow> string \<Rightarrow> byte list
     \<Rightarrow> unit outcome \<times> files" where
  "WriteFile ValidatePath cancelled fs path fileName docData =
     (case CreateYamlFile ValidatePath fs path fileName of
        (Err e, fs) \<Rightarrow> (Err e, fs)
      | (Panic, fs) \<Rightarrow> (Panic, fs)
      | (Ok isFileEmpty, fs) \<Rightarrow>
          let data = (if isFileEmpty then [] else separator);
              data = data @ docData;
              yamlPath = yaml_file path fileName;
              fs = fs(yamlPath \<mapsto> [])
          in if length data > 0 \<and> cancelled then (Ok (), fs)
             else (Ok (), fs(yamlPath \<mapsto> data)))"

text \<open>
  \<^verbatim>\<open>ReadFile\<close>: the whole content; \<^verbatim>\<open>(nil, nil)\<close> under a cancelled context.
\<close>

definition ReadFile :: "bool \<Rightarrow> files \<Rightarrow> string \<Rightarrow> string \<Rightarrow> byte list outcome" where
  "ReadFile cancelled fs path name =
     (case fs (yaml_file path name) of
        None \<Rightarrow> Err ''failed to read the file''
      | Some content \<Rightarrow> if cancelled then Ok [] else Ok content)"

text \<open>
  What the session file should hold after the documents \<open>docs\<close> were written one after
  the other, in the words of the specification: all of them, in order, with the separator
  before every document but the first.
\<close>

fun appended_documents :: "byte list list \<Rightarrow> byte list" where
  "appended_documents [] = []"
| "appended_documents [d] = d"
| "appended_documents (d # ds) = d @ separator @ appended_documents ds"

text \<open>Successive \<^verbatim>\<open>WriteFile\<close> calls on one file, stopping at the first that fails.\<close>

fun write_documents ::
  "(string \<Rightarrow> string outcome) \<Rightarrow> files \<Rightarrow> string \<Rightarrow> string \<Rightarrow> byte list list
     \<Rightarrow> unit outcome \<times> files" where
  "write_documents ValidatePath fs path fileName [] = (Ok (), fs)"
| "write_documents ValidatePath fs path fileName (d # ds) =
     (case WriteFile ValidatePath False fs path fileName d of
        (Ok u, fs') \<Rightarrow> write_documents ValidatePath fs' path fileName ds
      | (Err e, fs') \<Rightarrow> (Err e, fs')
      | (Panic, fs') \<Rightarrow> (Panic, fs'))"

section \<open>Connection factory\<close>

type_synonym ID = "64 word"

type_synonym TrafficDirectionEnum = int

text \<open>
  Modelled from the spec: the two direction constants, whose declaration is outside these
  files ("direction (ingress=0, egress=1)").
\<close>

definition IngressTraffic :: TrafficDirectionEnum where
  "IngressTraffic = 0"

definition EgressTraffic :: TrafficDirectionEnum where
  "EgressTraffic = 1"

text \<open>\<^verbatim>\<open>SocketDataEvent\<close>, with the fields the factory reads.\<close>

record SocketDataEvent =
  ConnID :: ID
  Direction :: TrafficDirectionEnum
  Msg :: "byte list"

text \<open>
  \<^verbatim>\<open>Event\<close>: the \<^verbatim>\<open>Type\<close> string with the message it comes with; any other type
  string falls through the switch.
\<close>

datatype Event = OpenEvent ID | DataEvent SocketDataEvent | CloseEvent ID | OtherEvent string

text \<open>
  A buffered Go channel of data events: what is queued (oldest first), the capacity given
  to \<^verbatim>\<open>make\<close>, and whether \<^verbatim>\<open>close\<close> was called on it.
\<close>

record chan =
  queue :: "SocketDataEvent list"
  capacity :: nat
  closed :: bool

text \<open>
  The factory's map from connection to channel. A channel is shared between the map and
  the worker started for it, and the worker keeps it after the map entry is deleted, so
  the channels live in a store of their own (\<open>channels\<close>, by the order of their making)
  and the map holds positions in it.
\<close>

record Factory =
  connections :: "ID \<rightharpoonup> nat"
  channels :: "chan list"

text \<open>
  What a call made by the event producer does: it returns, with the factory as it is
  then; or it is suspended by the runtime (a send on a channel whose buffer is full waits
  for a receive, a send on a nil channel waits forever); or it panics (\<^verbatim>\<open>close\<close> of a nil
  or closed channel, a send on a closed channel).
\<close>

datatype dispatch = Returned Factory | Suspended | Panicked

text \<open>\<^verbatim>\<open>Factory.ProcessActiveTrackers\<close>. A missing map key reads as the nil channel.\<close>

definition ProcessActiveTrackers :: "Factory \<Rightarrow> Event \<Rightarrow> dispatch" where
  "ProcessActiveTrackers factory event =
     (case event of
        OpenEvent connectionId \<Rightarrow>
          let workerChan = \<lparr>queue = [], capacity = 1000, closed = False\<rparr>
          in Returned (factory\<lparr>connections := (connections factory)(connectionId \<mapsto> length (channels factory)),
                               channels := channels factory @ [workerChan]\<rparr>)
      | DataEvent dataEvent \<Rightarrow>
          (case connections factory (ConnID dataEvent) of
             None \<Rightarrow> Suspended
           | Some c \<Rightarrow>
               let ch = channels factory ! c in
               if closed ch then Panicked
               else if length (queue ch) < capacity ch then
                 Returned (factory\<lparr>channels := (channels factory)[c := ch\<lparr>queue := queue ch @ [dataEvent]\<rparr>]\<rparr>)
               else Suspended)
      | CloseEvent connectionId \<Rightarrow>
          (case connections factory connectionId of
             None \<Rightarrow> Panicked
           | Some c \<Rightarrow>
               let ch = channels factory ! c in
               if closed ch then Panicked
               else Returned (factory\<lparr>connections := (connections factory)(connectionId := None),
                                    channels := (channels factory)[c := ch\<lparr>closed := True\<rparr>]\<rparr>))
      | OtherEvent t \<Rightarrow> Returned factory)"

subsection \<open>The worker\<close>

text \<open>
  \<^verbatim>\<open>*http.Request\<close> and \<^verbatim>\<open>*http.Response\<close>, with what \<^verbatim>\<open>capture\<close> reads of them. \<open>Body\<close>
  is what \<^verbatim>\<open>io.ReadAll\<close> gives on the body: the bytes, or \<open>None\<close> for a read error.
\<close>

record http_Request =
  Method :: string
  ProtoMajor :: int
  ProtoMinor :: int
  Host :: string
  RequestURI :: string
  Body :: "byte list option"

record http_Response =
  StatusCode :: int
  RespBody :: "byte list option"

text \<open>
  \<^verbatim>\<open>models.TestCase\<close>, with the fields \<^verbatim>\<open>capture\<close> fills from the request and the response
  themselves. The name, the headers, the URL parameters, the status message, the version
  and the timestamps come from helpers outside these files and the clock.
\<close>

record TestCase =
  HTTPReq_Method :: string
  HTTPReq_ProtoMajor :: int
  HTTPReq_ProtoMinor :: int
  HTTPReq_URL :: string
  HTTPReq_Body :: string
  HTTPResp_StatusCode :: int
  HTTPResp_Body :: string

text \<open>
  \<^verbatim>\<open>capture\<close>, on the two pointers the parsers returned (\<open>None\<close> is nil). It dereferences
  both without a check; a body that cannot be read ends it without a test case.
\<close>

datatype captured = Sent TestCase | Nothing | NilDereference

definition capture :: "http_Request option \<Rightarrow> http_Response option \<Rightarrow> captured" where
  "capture req resp =
     (case req of
        None \<Rightarrow> NilDereference
      | Some rq \<Rightarrow>
          (case Body rq of
             None \<Rightarrow> Nothing
           | Some reqBody \<Rightarrow>
               (case resp of
                  None \<Rightarrow> NilDereference
                | Some rs \<Rightarrow>
                    (case RespBody rs of
                       None \<Rightarrow> Nothing
                     | Some respBody \<Rightarrow>
                         Sent \<lparr>HTTPReq_Method = Method rq,
                               HTTPReq_ProtoMajor = ProtoMajor rq,
                               HTTPReq_ProtoMinor = ProtoMinor rq,
                               HTTPReq_URL = ''http://'' @ Host rq @ RequestURI rq,
                               HTTPReq_Body = string_of_bytes reqBody,
                               HTTPResp_StatusCode = StatusCode rs,
                               HTTPResp_Body = string_of_bytes respBody\<rparr>))))"

text \<open>
  \<^verbatim>\<open>pkg.ParseHTTPRequest\<close> and \<^verbatim>\<open>pkg.ParseHTTPResponse\<close> are outside these files and are
  parameters of the worker: each returns a pointer and whether the error is non-nil.
\<close>

type_synonym request_parser = "byte list \<Rightarrow> http_Request option \<times> bool"
type_synonym response_parser = "byte list \<Rightarrow> http_Request option \<Rightarrow> http_Response option \<times> bool"

text \<open>The local variables of \<^verbatim>\<open>Factory.Worker\<close>.\<close>

record worker =
  lastEventType :: TrafficDirectionEnum
  req :: "byte list"
  res :: "byte list"

definition new_worker :: worker where
  "new_worker = \<lparr>lastEventType = -1, req = [], res = []\<rparr>"

text \<open>
  Lines 87 to 97 and 103 to 113: both accumulators are parsed, a failure is logged, and
  \<^verbatim>\<open>capture\<close> is called with whatever the parsers returned.
\<close>

definition parse_and_capture :: "request_parser \<Rightarrow> response_parser \<Rightarrow> worker \<Rightarrow> captured" where
  "parse_and_capture ParseHTTPRequest ParseHTTPResponse w =
     (let (parsedHTTPReq, err) = ParseHTTPRequest (req w);
          (parsedHTTPRes, err) = ParseHTTPResponse (res w) parsedHTTPReq
      in capture parsedHTTPReq parsedHTTPRes)"

text \<open>
  The case the \<^verbatim>\<open>select\<close> of one loop round takes: a receive from the channel, with the
  event received; the two-second timer; or the context being done.
\<close>

datatype select_case = Receive SocketDataEvent | After2s | CtxDone

text \<open>
  One round of the loop: the worker goes on (with its variables and the test cases it
  sent on \<open>t\<close> in this round), returns, or brings the process down with a panic.
\<close>

datatype round = GoesOn worker "TestCase list" | Returns | Panics

definition after_capture :: "captured \<Rightarrow> worker \<Rightarrow> round" where
  "after_capture c w =
     (case c of
        Sent tc \<Rightarrow> GoesOn w [tc]
      | Nothing \<Rightarrow> GoesOn w []
      | NilDereference \<Rightarrow> Panics)"

definition Worker_round ::
  "request_parser \<Rightarrow> response_parser \<Rightarrow> worker \<Rightarrow> select_case \<Rightarrow> round" where
  "Worker_round ParseHTTPRequest ParseHTTPResponse w c =
     (case c of
        Receive dataEvent \<Rightarrow>
          let w = (if Direction dataEvent = IngressTraffic then w\<lparr>req := req w @ Msg dataEvent\<rparr>
                   else if Direction dataEvent = EgressTraffic then w\<lparr>res := res w @ Msg dataEvent\<rparr>
                   else w)
          in if Direction dataEvent = IngressTraffic \<and> lastEventType w = EgressTraffic then
               after_capture (parse_and_capture ParseHTTPRequest ParseHTTPResponse w)
                 (w\<lparr>lastEventType := Direction dataEvent\<rparr>)
             else GoesOn (w\<lparr>lastEventType := Direction dataEvent\<rparr>) []
      | After2s \<Rightarrow>
          if lastEventType w = EgressTraffic then
            after_capture (parse_and_capture ParseHTTPRequest ParseHTTPResponse w)
              (w\<lparr>lastEventType := -1\<rparr>)
          else GoesOn (w\<lparr>lastEventType := -1\<rparr>) []
      | CtxDone \<Rightarrow> Returns)"

text \<open>
  Which case the \<^verbatim>\<open>select\<close> can take, by the state of the channel and of the context.
  A receive is ready when an event is queued, and on a closed channel always: once the
  queue is empty it gives the zero value of the event type (\<open>msgLen\<close> is the length of the
  \<open>Msg\<close> array). The timer, made anew in each round, fires only after two seconds in which
  no other case was ready. \<^verbatim>\<open>ctx.Done()\<close> is ready once the context is cancelled.
\<close>

definition zero_event :: "nat \<Rightarrow> SocketDataEvent" where
  "zero_event msgLen = \<lparr>ConnID = 0, Direction = 0, Msg = replicate msgLen 0\<rparr>"

definition select_ready :: "nat \<Rightarrow> bool \<Rightarrow> chan \<Rightarrow> select_case \<Rightarrow> bool" where
  "select_ready msgLen cancelled ch c =
     (case c of
        Receive dataEvent \<Rightarrow>
          (case queue ch of
             e # es \<Rightarrow> dataEvent = e
           | [] \<Rightarrow> closed ch \<and> dataEvent = zero_event msgLen)
      | After2s \<Rightarrow> queue ch = [] \<and> \<not> closed ch \<and> \<not> cancelled
      | CtxDone \<Rightarrow> cancelled)"

text \<open>The channel after the case: a receive takes the oldest queued event away.\<close>

definition after_select :: "chan \<Rightarrow> select_case \<Rightarrow> chan" where
  "after_select ch c = (case c of Receive dataEvent \<Rightarrow> ch\<lparr>queue := tl (queue ch)\<rparr> | _ \<Rightarrow> ch)"

text \<open>
  The state of a worker between two rounds, and a run of the loop along the cases its
  \<^verbatim>\<open>select\<close> takes while nothing more is sent on the channel. \<open>None\<close>: the cases are not
  ones the \<^verbatim>\<open>select\<close> could have taken, or the run was over before them.
\<close>

datatype status = InLoop | HasReturned | HasPanicked

record run =
  state :: status
  vars :: worker
  channel :: chan
  emitted :: "TestCase list"

fun Worker ::
  "request_parser \<Rightarrow> response_parser \<Rightarrow> nat \<Rightarrow> bool \<Rightarrow> run \<Rightarrow> select_case list \<Rightarrow> run option" where
  "Worker ParseHTTPRequest ParseHTTPResponse msgLen cancelled r [] = Some r"
| "Worker ParseHTTPRequest ParseHTTPResponse msgLen cancelled r (c # cs) =
     (if state r \<noteq> InLoop \<or> \<not> select_ready msgLen cancelled (channel r) c then None
      else (case Worker_round ParseHTTPRequest ParseHTTPResponse (vars r) c of
              GoesOn w tcs \<Rightarrow>
                Worker ParseHTTPRequest ParseHTTPResponse msgLen cancelled
                  (r\<lparr>vars := w, channel := after_select (channel r) c, emitted := emitted r @ tcs\<rparr>) cs
            | Returns \<Rightarrow>
                Worker ParseHTTPRequest ParseHTTPResponse msgLen cancelled
                  (r\<lparr>state := HasReturned\<rparr>) cs
            | Panics \<Rightarrow>
                Worker ParseHTTPRequest ParseHTTPResponse msgLen cancelled
                  (r\<lparr>state := HasPanicked\<rparr>) cs))"

subsection \<open>The factory and its workers together\<close>

text \<open>\<^verbatim>\<open>NewFactory\<close>: no connection yet.\<close>

definition NewFactory :: Factory where
  "NewFactory = \<lparr>connections = Map.empty, channels = []\<rparr>"

text \<open>
  The factories that can come about: the event producer calls
  \<^verbatim>\<open>ProcessActiveTrackers\<close> with one event after the other, and between any two calls
  any worker may receive the oldest event queued on its channel.
\<close>

inductive reachable :: "Factory \<Rightarrow> bool" where
  start: "reachable NewFactory"
| dispatched: "reachable factory \<Longrightarrow> ProcessActiveTrackers factory event = Returned factory'
     \<Longrightarrow> reachable factory'"
| received: "reachable factory \<Longrightarrow> c < length (channels factory)
     \<Longrightarrow> queue (channels factory ! c) = dataEvent # rest
     \<Longrightarrow> reachable (factory\<lparr>channels := (channels factory)[c := (channels factory ! c)\<lparr>queue := rest\<rparr>]\<rparr>)"

text \<open>
  What every such factory keeps: a connection in the map has a channel of the store that
  is not closed, no two connections share a channel, and every channel has room for 1000
  events.
\<close>

definition well_formed :: "Factory \<Rightarrow> bool" where
  "well_formed factory \<longleftrightarrow>
     (\<forall>connID c. connections factory connID = Some c \<longrightarrow>
        c < length (channels factory) \<and> \<not> closed (channels factory ! c))
     \<and> (\<forall>connID connID' c. connections factory connID = Some c
          \<and> connections factory connID' = Some c \<longrightarrow> connID = connID')
     \<and> (\<forall>c < length (channels factory). capacity (channels factory ! c) = 1000)"

text \<open>Successive calls by the producer, up to the first that does not return.\<close>

fun dispatch_events :: "Factory \<Rightarrow> Event list \<Rightarrow> dispatch" where
  "dispatch_events factory [] = Returned factory"
| "dispatch_events factory (event # events) =
     (case ProcessActiveTrackers factory event of
        Returned factory' \<Rightarrow> dispatch_events factory' events
      | Suspended \<Rightarrow> Suspended
      | Panicked \<Rightarrow> Panicked)"

section \<open>The classifiers\<close>

subsection \<open>Four bytes and their big-endian value\<close>

lemma BigEndian_Uint32_byte0: "ucast (drop_bit 24 (BigEndian_Uint32 [a, b, c, d])) = a"
  unfolding BigEndian_Uint32_def
  by (rule bit_word_eqI) (auto simp add: bit_simps dest: bit_imp_le_length)

lemma BigEndian_Uint32_byte1: "ucast (drop_bit 16 (BigEndian_Uint32 [a, b, c, d])) = b"
  unfolding BigEndian_Uint32_def
  by (rule bit_word_eqI) (auto simp add: bit_simps dest: bit_imp_le_length)

lemma BigEndian_Uint32_byte2: "ucast (drop_bit 8 (BigEndian_Uint32 [a, b, c, d])) = c"
  unfolding BigEndian_Uint32_def
  by (rule bit_word_eqI) (auto simp add: bit_simps dest: bit_imp_le_length)

lemma BigEndian_Uint32_byte3: "ucast (BigEndian_Uint32 [a, b, c, d]) = d"
  unfolding BigEndian_Uint32_def
  by (rule bit_word_eqI) (auto simp add: bit_simps dest: bit_imp_le_length)

lemma BigEndian_Uint32_v3:
  "BigEndian_Uint32 [a, b, c, d] = 0x00030000 \<longleftrightarrow> a = 0 \<and> b = 3 \<and> c = 0 \<and> d = 0"
proof
  assume h: "BigEndian_Uint32 [a, b, c, d] = 0x00030000"
  have "a = ucast (drop_bit 24 (BigEndian_Uint32 [a, b, c, d]))" by (simp only: BigEndian_Uint32_byte0)
  moreover have "b = ucast (drop_bit 16 (BigEndian_Uint32 [a, b, c, d]))" by (simp only: BigEndian_Uint32_byte1)
  moreover have "c = ucast (drop_bit 8 (BigEndian_Uint32 [a, b, c, d]))" by (simp only: BigEndian_Uint32_byte2)
  moreover have "d = ucast (BigEndian_Uint32 [a, b, c, d])" by (simp only: BigEndian_Uint32_byte3)
  ultimately show "a = 0 \<and> b = 3 \<and> c = 0 \<and> d = 0" unfolding h by simp
next
  assume "a = 0 \<and> b = 3 \<and> c = 0 \<and> d = 0"
  then show "BigEndian_Uint32 [a, b, c, d] = 0x00030000" by (simp add: BigEndian_Uint32_def)
qed

lemma BigEndian_Uint32_ssl:
  "BigEndian_Uint32 [a, b, c, d] = 80877103 \<longleftrightarrow> a = 0x04 \<and> b = 0xD2 \<and> c = 0x16 \<and> d = 0x2F"
proof
  assume h: "BigEndian_Uint32 [a, b, c, d] = 80877103"
  have "a = ucast (drop_bit 24 (BigEndian_Uint32 [a, b, c, d]))" by (simp only: BigEndian_Uint32_byte0)
  moreover have "b = ucast (drop_bit 16 (BigEndian_Uint32 [a, b, c, d]))" by (simp only: BigEndian_Uint32_byte1)
  moreover have "c = ucast (drop_bit 8 (BigEndian_Uint32 [a, b, c, d]))" by (simp only: BigEndian_Uint32_byte2)
  moreover have "d = ucast (BigEndian_Uint32 [a, b, c, d])" by (simp only: BigEndian_Uint32_byte3)
  ultimately show "a = 0x04 \<and> b = 0xD2 \<and> c = 0x16 \<and> d = 0x2F" unfolding h by simp
next
  assume "a = 0x04 \<and> b = 0xD2 \<and> c = 0x16 \<and> d = 0x2F"
  then show "BigEndian_Uint32 [a, b, c, d] = 80877103" by (simp add: BigEndian_Uint32_def)
qed

lemma split_radix: "x * 256 + d = n \<Longrightarrow> d < 256 \<Longrightarrow> d = n mod 256 \<and> x = n div (256::nat)"
  by auto

lemma byte_unat_eq: "unat (x :: byte) = n \<Longrightarrow> x = of_nat n"
  by auto

lemma big_endian_value_bytes:
  assumes "big_endian_value [a, b, c, d] = n"
  shows "unat d = n mod 256 \<and> unat c = n div 256 mod 256
       \<and> unat b = n div 256 div 256 mod 256 \<and> unat a = n div 256 div 256 div 256"
proof -
  have ba: "unat a < 256" and bb: "unat b < 256" and bc: "unat c < 256" and bd: "unat d < 256"
    using unsigned_less [of a] unsigned_less [of b] unsigned_less [of c] unsigned_less [of d] by simp_all
  from assms have e: "((unat a * 256 + unat b) * 256 + unat c) * 256 + unat d = n"
    by (simp add: big_endian_value_def)
  from split_radix [OF e bd] have d: "unat d = n mod 256"
    and e2: "(unat a * 256 + unat b) * 256 + unat c = n div 256" by simp_all
  from split_radix [OF e2 bc] have c: "unat c = n div 256 mod 256"
    and e3: "unat a * 256 + unat b = n div 256 div 256" by simp_all
  from split_radix [OF e3 bb] have b: "unat b = n div 256 div 256 mod 256"
    and a: "unat a = n div 256 div 256 div 256" by simp_all
  from a b c d show ?thesis by simp
qed

lemma big_endian_value_v3:
  "big_endian_value [a, b, c, d] = 0x00030000 \<longleftrightarrow> a = 0 \<and> b = 3 \<and> c = 0 \<and> d = 0"
proof
  assume "big_endian_value [a, b, c, d] = 0x00030000"
  from big_endian_value_bytes [OF this]
  have "unat a = 0 \<and> unat b = 3 \<and> unat c = 0 \<and> unat d = 0" by simp
  then show "a = 0 \<and> b = 3 \<and> c = 0 \<and> d = 0"
    by (auto dest: byte_unat_eq)
next
  assume "a = 0 \<and> b = 3 \<and> c = 0 \<and> d = 0"
  then show "big_endian_value [a, b, c, d] = 0x00030000" by (simp add: big_endian_value_def)
qed

lemma big_endian_value_ssl:
  "big_endian_value [a, b, c, d] = 80877103 \<longleftrightarrow> a = 0x04 \<and> b = 0xD2 \<and> c = 0x16 \<and> d = 0x2F"
proof
  assume "big_endian_value [a, b, c, d] = 80877103"
  from big_endian_value_bytes [OF this]
  have "unat a = 4 \<and> unat b = 210 \<and> unat c = 22 \<and> unat d = 47" by simp
  then show "a = 0x04 \<and> b = 0xD2 \<and> c = 0x16 \<and> d = 0x2F"
    by (auto dest: byte_unat_eq)
next
  assume "a = 0x04 \<and> b = 0xD2 \<and> c = 0x16 \<and> d = 0x2F"
  then show "big_endian_value [a, b, c, d] = 80877103" by (simp add: big_endian_value_def)
qed

lemma length_four:
  "length xs = Suc (Suc (Suc (Suc 0))) \<Longrightarrow> \<exists>a b c d. xs = [a, b, c, d]"
  by (auto simp add: length_Suc_conv)

lemma four_bytes:
  assumes "8 \<le> length buf"
  obtains a b c d where "take 4 (drop 4 buf) = [a, b, c, d]"
proof -
  have "length (take 4 (drop 4 buf)) = Suc (Suc (Suc (Suc 0)))" using assms by simp
  then have "\<exists>a b c d. take 4 (drop 4 buf) = [a, b, c, d]" by (rule length_four)
  then show ?thesis using that by blast
qed

text \<open>
  Claim C1. \<^verbatim>\<open>PostgresV1.MatchType\<close> never panics, and it returns true exactly when the
  buffer has at least 8 bytes and the big-endian value of bytes 4 to 7 is 0x00030000 or
  80877103; so it returns false on every shorter buffer and on every other value there.
\<close>

theorem PostgresV1_MatchType_exact:
  "PostgresV1_MatchType buf =
     Ok (8 \<le> length buf \<and>
         (big_endian_value (take 4 (drop 4 buf)) = 0x00030000 \<or>
          big_endian_value (take 4 (drop 4 buf)) = 80877103))"
proof (cases "8 \<le> length buf")
  case False
  then show ?thesis by (simp add: PostgresV1_MatchType_def)
next
  case True
  then obtain a b c d where bs: "take 4 (drop 4 buf) = [a, b, c, d]" by (rule four_bytes)
  from True have "slice_expr buf 4 8 = Some [a, b, c, d]"
    by (simp add: slice_expr_def bs)
  with True show ?thesis
    by (auto simp add: PostgresV1_MatchType_def bs Let_def ProtocolVersion_def
          BigEndian_Uint32_v3 BigEndian_Uint32_ssl big_endian_value_v3 big_endian_value_ssl)
qed

text \<open>The three classifier inputs of the specification's scenarios.\<close>

lemma PostgresV1_MatchType_startup:
  "PostgresV1_MatchType [0x00, 0x00, 0x00, 0x08, 0x00, 0x03, 0x00, 0x00] = Ok True"
  by (simp add: PostgresV1_MatchType_def slice_expr_def BigEndian_Uint32_def ProtocolVersion_def)

lemma PostgresV1_MatchType_ssl_request:
  "PostgresV1_MatchType [0x00, 0x00, 0x00, 0x08, 0x04, 0xD2, 0x16, 0x2F] = Ok True"
  by (simp add: PostgresV1_MatchType_def slice_expr_def BigEndian_Uint32_def ProtocolVersion_def)

lemma PostgresV1_MatchType_http:
  "PostgresV1_MatchType [0x47, 0x45, 0x54, 0x20, 0x2F, 0x20, 0x48, 0x54] = Ok False"
  by (simp add: PostgresV1_MatchType_def slice_expr_def BigEndian_Uint32_def ProtocolVersion_def)


section \<open>The MySQL handshake response decoder\<close>

subsection \<open>Searching for the terminator\<close>

lemma IndexByte_None: "IndexByte d c = None \<longleftrightarrow> c \<notin> set d"
  by (induction d) auto

lemma IndexByte_Some_less: "IndexByte d c = Some i \<Longrightarrow> i < length d"
  by (induction d arbitrary: i) (auto split: if_splits)

lemma IndexByte_Some_zeros:
  "IndexByte d c = Some i \<Longrightarrow>
     Suc (length (filter (\<lambda>b. b = c) (drop (i + 1) d))) = length (filter (\<lambda>b. b = c) d)"
  by (induction d arbitrary: i) (auto split: if_splits)

lemma IndexByte_Some_mem:
  assumes "0 < length (filter (\<lambda>b. b = c) d)"
  obtains i where "IndexByte d c = Some i"
proof -
  from assms have "c \<in> set d"
    by (induction d) (auto split: if_splits)
  then have "IndexByte d c \<noteq> None" by (simp add: IndexByte_None)
  then show ?thesis using that by auto
qed

subsection \<open>What the later fields leave alone\<close>

lemma decode_zstd_Ok: "\<exists>p. decode_zstd packet data = Some (Ok p)"
  by (simp add: decode_zstd_def)

lemma decode_zstd_keeps:
  assumes "decode_zstd packet data = Some (Ok p)"
  shows "CapabilityFlags p = CapabilityFlags packet \<and> MaxPacketSize p = MaxPacketSize packet
       \<and> CharacterSet p = CharacterSet packet \<and> Username p = Username packet
       \<and> AuthData p = AuthData packet \<and> ConnectAttributes p = ConnectAttributes packet"
  using assms by (auto simp add: decode_zstd_def split: if_splits)

lemma decode_attributes_unset:
  "CapabilityFlags packet AND CLIENT_CONNECT_ATTRS = 0 \<Longrightarrow>
     decode_attributes packet data = decode_zstd packet data"
  by (simp add: decode_attributes_def)

lemma decode_attributes_keeps:
  assumes "decode_attributes packet data = Some (Ok p)"
  shows "CapabilityFlags p = CapabilityFlags packet \<and> MaxPacketSize p = MaxPacketSize packet
       \<and> CharacterSet p = CharacterSet packet \<and> Username p = Username packet
       \<and> AuthData p = AuthData packet"
  using assms
  by (auto simp add: decode_attributes_def Let_def
        split: if_splits prod.splits option.splits outcome.splits dest!: decode_zstd_keeps)

lemma decode_plugin_name_keeps:
  assumes "decode_plugin_name packet data = Some (Ok p)"
  shows "CapabilityFlags p = CapabilityFlags packet \<and> MaxPacketSize p = MaxPacketSize packet
       \<and> CharacterSet p = CharacterSet packet \<and> Username p = Username packet
       \<and> AuthData p = AuthData packet"
  using assms
  by (auto simp add: decode_plugin_name_def split: if_splits option.splits
        dest!: decode_attributes_keeps)

lemma decode_database_keeps:
  assumes "decode_database packet data = Some (Ok p)"
  shows "CapabilityFlags p = CapabilityFlags packet \<and> MaxPacketSize p = MaxPacketSize packet
       \<and> CharacterSet p = CharacterSet packet \<and> Username p = Username packet
       \<and> AuthData p = AuthData packet"
  using assms
  by (auto simp add: decode_database_def split: if_splits option.splits
        dest!: decode_plugin_name_keeps)

lemma decode_database_no_attributes:
  assumes "decode_database packet data = Some (Ok p)"
    and "CapabilityFlags packet AND CLIENT_CONNECT_ATTRS = 0"
  shows "ConnectAttributes p = ConnectAttributes packet"
  using assms
  by (auto simp add: decode_database_def decode_plugin_name_def decode_attributes_unset
        split: if_splits option.splits dest!: decode_zstd_keeps)

subsection \<open>Enough terminators and no attribute block\<close>

lemma decode_plugin_name_Ok:
  assumes "CapabilityFlags packet AND CLIENT_CONNECT_ATTRS = 0"
    and "0 < length (filter (\<lambda>b. b = 0) data)"
  shows "\<exists>p. decode_plugin_name packet data = Some (Ok p)"
proof -
  from assms(2) obtain i where "IndexByte data 0 = Some i" by (rule IndexByte_Some_mem)
  with assms(1) show ?thesis
    by (simp add: decode_plugin_name_def decode_attributes_unset decode_zstd_Ok)
qed

lemma decode_database_Ok:
  assumes "CapabilityFlags packet AND CLIENT_CONNECT_ATTRS = 0"
    and "1 < length (filter (\<lambda>b. b = 0) data)"
  shows "\<exists>p. decode_database packet data = Some (Ok p)"
proof (cases "CapabilityFlags packet AND CLIENT_CONNECT_WITH_DB \<noteq> 0")
  case False
  have "0 < length (filter (\<lambda>b. b = 0) data)"
    by (rule less_trans [OF zero_less_one assms(2)])
  with assms(1) have "\<exists>p. decode_plugin_name packet data = Some (Ok p)"
    by (rule decode_plugin_name_Ok)
  with False show ?thesis by (simp add: decode_database_def)
next
  case True
  have "0 < length (filter (\<lambda>b. b = 0) data)"
    by (rule less_trans [OF zero_less_one assms(2)])
  then obtain i where i: "IndexByte data 0 = Some i" by (rule IndexByte_Some_mem)
  from IndexByte_Some_zeros [OF i] assms(2)
  have "0 < length (filter (\<lambda>b. b = 0) (drop (i + 1) data))" by linarith
  with assms(1) have "\<exists>p. decode_plugin_name (packet\<lparr>Database := string_of_bytes (take i data)\<rparr>)
      (drop (i + 1) data) = Some (Ok p)"
    by (intro decode_plugin_name_Ok) simp_all
  with True i show ?thesis by (simp add: decode_database_def)
qed

subsection \<open>The scenario of the specification\<close>

lemma root_bytes: "string_of_bytes [0x72, 0x6F, 0x6F, 0x74] = ''root''"
  by code_simp

lemma reserved_zero:
  "replicate 23 (0 :: byte) = [0, 0, 0, 0, 0, 0, 0, 0, 0, 0, 0, 0, 0, 0, 0, 0, 0, 0, 0, 0, 0, 0, 0]"
  by code_simp

lemma scenario_fixed:
  "decode_fixed (handshake_scenario auth) =
     (zero_packet\<lparr>CapabilityFlags := 0x000FA68D, MaxPacketSize := 0x01000000, CharacterSet := 0x21\<rparr>,
      [0x72, 0x6F, 0x6F, 0x74, 0x00, 0x14] @ auth
      @ [0x74, 0x65, 0x73, 0x74, 0x00,
         0x6D, 0x79, 0x73, 0x71, 0x6C, 0x5F, 0x6E, 0x61, 0x74, 0x69, 0x76, 0x65, 0x5F,
         0x70, 0x61, 0x73, 0x73, 0x77, 0x6F, 0x72, 0x64, 0x00,
         0x0C, 0x03, 0x66, 0x6F, 0x6F, 0x03, 0x62, 0x61, 0x72])"
  by (simp add: decode_fixed_def handshake_scenario_def Let_def LittleEndian_Uint32_def
        zero_packet_def reserved_zero)

lemma scenario_flags:
  "(0x000FA68D :: 32 word) AND CLIENT_CONNECT_ATTRS = 0"
  "(0x000FA68D :: 32 word) AND CLIENT_PLUGIN_AUTH_LENENC_CLIENT_DATA = 0"
  "(0x000FA68D :: 32 word) AND CLIENT_PLUGIN_AUTH \<noteq> 0"
  "(0x000FA68D :: 32 word) AND CLIENT_CONNECT_WITH_DB \<noteq> 0"
  by (simp_all add: CLIENT_CONNECT_ATTRS_def CLIENT_PLUGIN_AUTH_LENENC_CLIENT_DATA_def
        CLIENT_PLUGIN_AUTH_def CLIENT_CONNECT_WITH_DB_def)

lemma scenario_decoded:
  assumes "length auth = 20"
  shows "\<exists>p. decodeHandshakeResponse slack (handshake_scenario auth) = Some (Ok p)
           \<and> CapabilityFlags p = 0x000FA68D \<and> MaxPacketSize p = 0x01000000
           \<and> CharacterSet p = 0x21 \<and> Username p = ''root''
           \<and> ConnectAttributes p = None"
proof -
  let ?tail = "[0x74, 0x65, 0x73, 0x74, 0x00,
         0x6D, 0x79, 0x73, 0x71, 0x6C, 0x5F, 0x6E, 0x61, 0x74, 0x69, 0x76, 0x65, 0x5F,
         0x70, 0x61, 0x73, 0x73, 0x77, 0x6F, 0x72, 0x64, 0x00,
         0x0C, 0x03, 0x66, 0x6F, 0x6F, 0x03, 0x62, 0x61, 0x72] :: byte list"
  let ?packet = "zero_packet\<lparr>CapabilityFlags := 0x000FA68D, MaxPacketSize := 0x01000000,
      CharacterSet := 0x21, Username := ''root''\<rparr>"
  let ?data = "drop 1 auth @ ?tail"
  let ?after = "?packet\<lparr>AuthData := take 20 (?data @ slack)\<rparr>"
  from assms obtain a where auth: "auth = a # drop 1 auth"
    by (cases auth) simp_all
  have len: "32 \<le> length (handshake_scenario auth)"
    by (simp add: handshake_scenario_def)
  have user: "IndexByte ([0x72, 0x6F, 0x6F, 0x74, 0x00, 0x14] @ auth @ ?tail) 0 = Some 4"
    by simp
  have rest: "drop (4 + 1) ([0x72, 0x6F, 0x6F, 0x74, 0x00, 0x14] @ auth @ ?tail) = 0x14 # auth @ ?tail"
    by simp
  have drop2: "drop 2 (0x14 # auth @ ?tail) = ?data"
    by (subst auth) simp
  have "decode_auth_data slack ?packet (0x14 # auth @ ?tail) = decode_database ?after ?data"
    using assms
    by (simp add: decode_auth_data_def zero_packet_def scenario_flags Let_def drop2 del: drop_Suc_Cons)
  with len user rest
  have whole: "decodeHandshakeResponse slack (handshake_scenario auth) = decode_database ?after ?data"
    by (simp add: decodeHandshakeResponse_def scenario_fixed root_bytes)
  have flags: "CapabilityFlags ?after AND CLIENT_CONNECT_ATTRS = 0"
    by (simp add: scenario_flags)
  have "1 < length (filter (\<lambda>b. b = 0) ?data)" by simp
  with flags obtain p where p: "decode_database ?after ?data = Some (Ok p)"
    using decode_database_Ok by blast
  from decode_database_keeps [OF p] decode_database_no_attributes [OF p flags] whole p
  show ?thesis by (simp add: zero_packet_def)
qed

text \<open>
  Claim C2, as it stands, fails. With the authentication data "ABCDEFGHIJKLMNOPQRST"
  the decoder returns the packet below: the capabilities 0x000FA68D have neither
  \<open>CLIENT_PLUGIN_AUTH_LENENC_CLIENT_DATA\<close> nor \<open>CLIENT_CONNECT_ATTRS\<close>, so the legacy
  branch skips a byte and leaves the data where the authentication bytes begin, the
  database name runs from there to the terminator of "test", and the attribute block
  is not decoded at all.
\<close>

theorem handshake_scenario_counterexample:
  "decodeHandshakeResponse []
     (handshake_scenario [0x41, 0x42, 0x43, 0x44, 0x45, 0x46, 0x47, 0x48, 0x49, 0x4A,
                          0x4B, 0x4C, 0x4D, 0x4E, 0x4F, 0x50, 0x51, 0x52, 0x53, 0x54]) =
   Some (Ok \<lparr>CapabilityFlags = 0x000FA68D, MaxPacketSize = 0x01000000,
              CharacterSet = 0x21, Reserved = replicate 23 0,
              Username = ''root'',
              AuthData = [0x42, 0x43, 0x44, 0x45, 0x46, 0x47, 0x48, 0x49, 0x4A, 0x4B,
                          0x4C, 0x4D, 0x4E, 0x4F, 0x50, 0x51, 0x52, 0x53, 0x54, 0x74],
              Database = ''BCDEFGHIJKLMNOPQRSTtest'',
              AuthPluginName = ''mysql_native_password'',
              ConnectAttributes = None, ZstdCompressionLevel = 0x0C\<rparr>)"
  by code_simp

text \<open>
  Claim C2, amended. Whatever the 20 bytes of authentication data are, the decoder
  returns a packet without error, with the capabilities 0x000FA68D, the maximum packet
  size, the character set and the user name "root" of the scenario; the capabilities do
  not include \<open>CLIENT_CONNECT_ATTRS\<close>, and the packet has no connection attributes.
\<close>

theorem handshake_scenario_decoded:
  assumes "length auth = 20"
  shows "\<exists>p. decodeHandshakeResponse slack (handshake_scenario auth) = Some (Ok p)
           \<and> CapabilityFlags p = 0x000FA68D \<and> MaxPacketSize p = 0x01000000
           \<and> CharacterSet p = 0x21 \<and> Username p = ''root''
           \<and> CapabilityFlags p AND CLIENT_CONNECT_ATTRS = 0
           \<and> ConnectAttributes p = None"
proof -
  from scenario_decoded [OF assms, of slack] obtain p where
    "decodeHandshakeResponse slack (handshake_scenario auth) = Some (Ok p)"
    "CapabilityFlags p = 0x000FA68D" "MaxPacketSize p = 0x01000000"
    "CharacterSet p = 0x21" "Username p = ''root''" "ConnectAttributes p = None"
    by blast
  then show ?thesis by (auto simp add: scenario_flags)
qed

theorem handshake_scenario_decoded_witness:
  "length [0x41, 0x42, 0x43, 0x44, 0x45, 0x46, 0x47, 0x48, 0x49, 0x4A,
           0x4B, 0x4C, 0x4D, 0x4E, 0x4F, 0x50, 0x51, 0x52, 0x53, 0x54 :: byte] = 20
   \<and> (\<exists>p. decodeHandshakeResponse []
             (handshake_scenario [0x41, 0x42, 0x43, 0x44, 0x45, 0x46, 0x47, 0x48, 0x49, 0x4A,
                                  0x4B, 0x4C, 0x4D, 0x4E, 0x4F, 0x50, 0x51, 0x52, 0x53, 0x54])
             = Some (Ok p)
           \<and> CapabilityFlags p = 0x000FA68D \<and> MaxPacketSize p = 0x01000000
           \<and> CharacterSet p = 0x21 \<and> Username p = ''root''
           \<and> CapabilityFlags p AND CLIENT_CONNECT_ATTRS = 0
           \<and> ConnectAttributes p = None)"
proof -
  have h: "length [0x41, 0x42, 0x43, 0x44, 0x45, 0x46, 0x47, 0x48, 0x49, 0x4A,
           0x4B, 0x4C, 0x4D, 0x4E, 0x4F, 0x50, 0x51, 0x52, 0x53, 0x54 :: byte] = 20"
    by simp
  from h handshake_scenario_decoded [OF h, of "[]"] show ?thesis by blast
qed

subsection \<open>Buffers the decoder does not survive\<close>

text \<open>
  Claim C4 fails on the code. On 33 zero bytes the length check passes, the user name is
  empty, nothing is left, and line 64 reads \<^verbatim>\<open>data[0]\<close> of an empty slice: the decoder
  panics where the claim has it return an error.
\<close>

theorem decodeHandshakeResponse_panics:
  "decodeHandshakeResponse slack
     [0, 0, 0, 0, 0, 0, 0, 0, 0, 0, 0, 0, 0, 0, 0, 0,
      0, 0, 0, 0, 0, 0, 0, 0, 0, 0, 0, 0, 0, 0, 0, 0, 0] = Some Panic"
  by (simp add: decodeHandshakeResponse_def decode_fixed_def decode_auth_data_def Let_def
        LittleEndian_Uint32_def zero_packet_def CLIENT_PLUGIN_AUTH_LENENC_CLIENT_DATA_def)

text \<open>
  Nor does it always return. An attribute block that holds the single byte 0xfc makes
  every round of the attribute loop read a length of 0 in 0 bytes, for the key and for
  the value, and leaves the block as it was.
\<close>

lemma attribute_round_stuck:
  "attribute_round [0xfc] attrs = Ok ([0xfc], AList.update [] [] attrs)"
  by (simp add: attribute_round_def decodeLengthEncodedInteger_def string_of_bytes_def)

lemma attribute_loop_returns_not_stuck:
  assumes "attribute_loop ad attrs = Some y"
  shows "ad \<noteq> [0xfc]"
proof (rule attribute_loop.raw_induct [where P = "\<lambda>ad attrs y. ad \<noteq> [0xfc]", OF _ assms])
  fix f :: "byte list \<Rightarrow> (string \<times> string) list \<Rightarrow> (string \<times> string) list outcome option"
  fix ad attrs y
  assume ih: "\<And>ad attrs y. f ad attrs = Some y \<Longrightarrow> ad \<noteq> [0xfc]"
  assume step: "(if 0 < length ad
      then case attribute_round ad attrs of
           Ok (attributesData', attrs') \<Rightarrow> f attributesData' attrs'
           | Err e \<Rightarrow> Some (Err e) | Panic \<Rightarrow> Some Panic
      else Some (Ok attrs)) = Some y"
  show "ad \<noteq> [0xfc]"
  proof
    assume "ad = [0xfc]"
    with step have "f [0xfc] (AList.update [] [] attrs) = Some y"
      by (simp add: attribute_round_stuck)
    from ih [OF this] show False by simp
  qed
qed

lemma attribute_loop_diverges: "attribute_loop [0xfc] attrs = None"
  using attribute_loop_returns_not_stuck [of "[0xfc]" attrs]
  by (cases "attribute_loop [0xfc] attrs") auto

lemma decodeHandshakeResponse_diverges:
  "decodeHandshakeResponse slack
     [0x00, 0x00, 0x10, 0x00, 0, 0, 0, 0, 0, 0, 0, 0, 0, 0, 0, 0,
      0, 0, 0, 0, 0, 0, 0, 0, 0, 0, 0, 0, 0, 0, 0, 0,
      0x00, 0x00, 0x00, 0x01, 0xfc, 0x00, 0x00] = None"
  by (simp add: decodeHandshakeResponse_def decode_fixed_def decode_auth_data_def Let_def
        LittleEndian_Uint32_def zero_packet_def CLIENT_PLUGIN_AUTH_LENENC_CLIENT_DATA_def
        decode_database_def decode_plugin_name_def decode_attributes_def
        CLIENT_PLUGIN_AUTH_def CLIENT_CONNECT_WITH_DB_def CLIENT_CONNECT_ATTRS_def
        decodeLengthEncodedInteger_def attribute_loop_diverges)

subsection \<open>Fields without a terminator\<close>





subsection \<open>The authentication data\<close>







section \<open>The session files\<close>

text \<open>
  A second write to a file that exists: the file is emptied, and what it holds afterwards
  is the separator and the new document, whatever it held before.
\<close>

lemma WriteFile_existing:
  assumes "ValidatePath (yaml_file path fileName) = Ok (yaml_file path fileName)"
    and "fs (yaml_file path fileName) = Some old"
  shows "WriteFile ValidatePath False fs path fileName docData =
           (Ok (), fs(yaml_file path fileName \<mapsto> separator @ docData))"
  using assms by (simp add: WriteFile_def CreateYamlFile_def Let_def)

lemma WriteFile_missing:
  assumes "ValidatePath (yaml_file path fileName) = Ok (yaml_file path fileName)"
    and "fs (yaml_file path fileName) = None"
  shows "WriteFile ValidatePath False fs path fileName docData =
           (Ok (), fs(yaml_file path fileName \<mapsto> docData))"
  using assms by (simp add: WriteFile_def CreateYamlFile_def Let_def)

text \<open>
  Claim C3 fails on the code. Two documents, "a" and then "b", are written to a new
  session file; reading it back gives the separator and "b" only, where the claim (and
  the separator the code puts before "b") has the file hold "a", the separator and "b".
\<close>

theorem WriteFile_twice_loses_first:
  "ReadFile False
     (snd (write_documents Ok Map.empty ''keploy/test-set-0'' ''mocks'' [[0x61], [0x62]]))
     ''keploy/test-set-0'' ''mocks'' = Ok [0x2D, 0x2D, 0x2D, 0x0A, 0x62]
   \<and> appended_documents [[0x61], [0x62]] = [0x61, 0x2D, 0x2D, 0x2D, 0x0A, 0x62]"
  by (simp add: WriteFile_def CreateYamlFile_def ReadFile_def Let_def separator_def yaml_file_def)

text \<open>One document alone is read back as it was written.\<close>

lemma WriteFile_once:
  "ReadFile False (snd (write_documents Ok Map.empty path name [d])) path name =
     Ok (appended_documents [d])"
  by (simp add: WriteFile_def CreateYamlFile_def ReadFile_def Let_def)

text \<open>However many documents went before, only the last one written is in the file.\<close>

lemma write_documents_existing:
  assumes "ValidatePath (yaml_file path fileName) = Ok (yaml_file path fileName)"
    and "fs (yaml_file path fileName) = Some old"
  shows "write_documents ValidatePath fs path fileName (ds @ [d]) =
           (Ok (), fs(yaml_file path fileName \<mapsto> separator @ d))"
  using assms(2)
proof (induction ds arbitrary: fs old)
  case Nil
  show ?case
    by (auto simp add: fun_eq_iff WriteFile_existing [where ValidatePath = ValidatePath
          and path = path and fileName = fileName and fs = fs, OF assms(1) Nil.prems])
next
  case (Cons x ds)
  let ?fs = "fs(yaml_file path fileName \<mapsto> separator @ x)"
  have step: "WriteFile ValidatePath False fs path fileName x = (Ok (), ?fs)"
    by (rule WriteFile_existing [where ValidatePath = ValidatePath and path = path
          and fileName = fileName and fs = fs, OF assms(1) Cons.prems])
  have "write_documents ValidatePath fs path fileName ((x # ds) @ [d]) =
          write_documents ValidatePath ?fs path fileName (ds @ [d])"
    by (simp add: step)
  also have "\<dots> = (Ok (), ?fs(yaml_file path fileName \<mapsto> separator @ d))"
    by (rule Cons.IH) simp
  also have "?fs(yaml_file path fileName \<mapsto> separator @ d) =
      fs(yaml_file path fileName \<mapsto> separator @ d)"
    by simp
  finally show ?case .
qed

section \<open>The connection factory\<close>

subsection \<open>What holds of every factory that can come about\<close>

lemma nth_list_update_cases:
  "xs[i := x] ! j = (if i = j \<and> i < length xs then x else xs ! j)"
  by (cases "i < length xs") (auto simp add: nth_list_update list_update_beyond)

lemma well_formed_NewFactory: "well_formed NewFactory"
  by (simp add: well_formed_def NewFactory_def)

lemma well_formed_open:
  assumes "well_formed factory"
    and "ProcessActiveTrackers factory (OpenEvent connID) = Returned factory'"
  shows "well_formed factory'"
proof -
  from assms(2) have f': "factory' = factory\<lparr>connections := (connections factory)(connID \<mapsto> length (channels factory)),
      channels := channels factory @ [\<lparr>queue = [], capacity = 1000, closed = False\<rparr>]\<rparr>"
    by (simp add: ProcessActiveTrackers_def Let_def)
  from assms(1) show ?thesis
    unfolding f' well_formed_def
    by (auto simp add: nth_append less_Suc_eq split: if_splits)
qed

lemma well_formed_data:
  assumes "well_formed factory"
    and "ProcessActiveTrackers factory (DataEvent dataEvent) = Returned factory'"
  shows "well_formed factory'"
proof -
  from assms(2) obtain c where
    f': "factory' = factory\<lparr>channels := (channels factory)[c := (channels factory ! c)\<lparr>queue := queue (channels factory ! c) @ [dataEvent]\<rparr>]\<rparr>"
    by (auto simp add: ProcessActiveTrackers_def Let_def split: option.splits if_splits)
  from assms(1) show ?thesis
    unfolding f' well_formed_def
    by (auto simp add: nth_list_update_cases)
qed

lemma well_formed_close:
  assumes "well_formed factory"
    and "ProcessActiveTrackers factory (CloseEvent connID) = Returned factory'"
  shows "well_formed factory'"
proof -
  from assms(2) obtain c where c: "connections factory connID = Some c"
    and f': "factory' = factory\<lparr>connections := (connections factory)(connID := None),
        channels := (channels factory)[c := (channels factory ! c)\<lparr>closed := True\<rparr>]\<rparr>"
    by (auto simp add: ProcessActiveTrackers_def Let_def split: option.splits if_splits)
  from assms(1) c show ?thesis
    unfolding f' well_formed_def
    by (auto simp add: nth_list_update_cases split: if_splits)
qed

lemma well_formed_received:
  assumes "well_formed factory"
  shows "well_formed (factory\<lparr>channels := (channels factory)[c := (channels factory ! c)\<lparr>queue := rest\<rparr>]\<rparr>)"
  using assms unfolding well_formed_def
  by (auto simp add: nth_list_update_cases)

lemma reachable_well_formed: "reachable factory \<Longrightarrow> well_formed factory"
proof (induction rule: reachable.induct)
  case start
  show ?case by (rule well_formed_NewFactory)
next
  case (dispatched factory event factory')
  show ?case
  proof (cases event)
    case (OpenEvent connID)
    with dispatched show ?thesis by (auto intro: well_formed_open)
  next
    case (DataEvent dataEvent)
    with dispatched show ?thesis by (auto intro: well_formed_data)
  next
    case (CloseEvent connID)
    with dispatched show ?thesis by (auto intro: well_formed_close)
  next
    case (OtherEvent t)
    with dispatched show ?thesis by (simp add: ProcessActiveTrackers_def)
  qed
next
  case (received factory c dataEvent rest)
  then show ?case by (simp add: well_formed_received)
qed

subsection \<open>Data events and the queue\<close>

lemma dispatch_data_events:
  assumes "connections factory (ConnID dataEvent) = Some c"
    and "c < length (channels factory)"
    and "\<not> closed (channels factory ! c)"
    and "length (queue (channels factory ! c)) + n \<le> capacity (channels factory ! c)"
  shows "dispatch_events factory (replicate n (DataEvent dataEvent)) =
           Returned (factory\<lparr>channels := (channels factory)[c := (channels factory ! c)
             \<lparr>queue := queue (channels factory ! c) @ replicate n dataEvent\<rparr>]\<rparr>)"
  using assms
proof (induction n arbitrary: factory)
  case 0
  then show ?case by simp
next
  case (Suc n)
  let ?ch = "channels factory ! c"
  let ?factory = "factory\<lparr>channels := (channels factory)[c := ?ch\<lparr>queue := queue ?ch @ [dataEvent]\<rparr>]\<rparr>"
  from Suc.prems have step: "ProcessActiveTrackers factory (DataEvent dataEvent) = Returned ?factory"
    by (simp add: ProcessActiveTrackers_def Let_def)
  from Suc.prems have "dispatch_events ?factory (replicate n (DataEvent dataEvent)) =
      Returned (?factory\<lparr>channels := (channels ?factory)[c := (channels ?factory ! c)
             \<lparr>queue := queue (channels ?factory ! c) @ replicate n dataEvent\<rparr>]\<rparr>)"
    by (intro Suc.IH) simp_all
  with step Suc.prems(2) show ?case
    by (simp add: replicate_app_Cons_same)
qed

text \<open>
  Claim C6, as it stands, fails. A connection is opened and 1001 data events arrive for
  it before its worker has received any: the first 1000 fill the queue, and the call for
  the last one neither drops the event nor returns; the producer is suspended in the
  send.
\<close>

theorem full_queue_counterexample:
  "dispatch_events NewFactory
     (OpenEvent 7 # replicate 1000 (DataEvent \<lparr>ConnID = 7, Direction = 0, Msg = [0x47]\<rparr>)
        @ [DataEvent \<lparr>ConnID = 7, Direction = 0, Msg = [0x47]\<rparr>]) = Suspended"
proof -
  let ?e = "\<lparr>ConnID = 7, Direction = 0, Msg = [0x47]\<rparr> :: SocketDataEvent"
  let ?opened = "\<lparr>connections = [7 \<mapsto> 0],
      channels = [\<lparr>queue = [], capacity = 1000, closed = False\<rparr>]\<rparr> :: Factory"
  let ?full = "\<lparr>connections = [7 \<mapsto> 0],
      channels = [\<lparr>queue = replicate 1000 ?e, capacity = 1000, closed = False\<rparr>]\<rparr> :: Factory"
  have opened: "ProcessActiveTrackers NewFactory (OpenEvent 7) = Returned ?opened"
    by (simp add: ProcessActiveTrackers_def NewFactory_def)
  have "dispatch_events ?opened (replicate 1000 (DataEvent ?e)) =
      Returned (?opened\<lparr>channels := (channels ?opened)[0 := (channels ?opened ! 0)
             \<lparr>queue := queue (channels ?opened ! 0) @ replicate 1000 ?e\<rparr>]\<rparr>)"
    by (rule dispatch_data_events) simp_all
  then have filled: "dispatch_events ?opened (replicate 1000 (DataEvent ?e)) = Returned ?full"
    by simp
  have last: "ProcessActiveTrackers ?full (DataEvent ?e) = Suspended"
    by (simp add: ProcessActiveTrackers_def)
  have run: "\<And>f es e. dispatch_events f (es @ [e]) =
      (case dispatch_events f es of Returned f' \<Rightarrow> dispatch_events f' [e]
       | Suspended \<Rightarrow> Suspended | Panicked \<Rightarrow> Panicked)"
  proof -
    fix f es e
    show "dispatch_events f (es @ [e]) =
      (case dispatch_events f es of Returned f' \<Rightarrow> dispatch_events f' [e]
       | Suspended \<Rightarrow> Suspended | Panicked \<Rightarrow> Panicked)"
      by (induction es arbitrary: f) (auto split: dispatch.splits)
  qed
  from opened filled last show ?thesis
    by (simp add: run)
qed

text \<open>
  Claim C6, amended. In every factory that can come about, a data event for a
  connection that is in the map is put at the end of that connection's queue when fewer
  than 1000 events are queued, and the call returns; when 1000 are queued, the call
  does not return but is suspended until the worker receives. No event is dropped.
\<close>

theorem data_event_queued_or_suspended:
  assumes "reachable factory" and "connections factory (ConnID dataEvent) = Some c"
  shows "ProcessActiveTrackers factory (DataEvent dataEvent) =
           (if length (queue (channels factory ! c)) < 1000
            then Returned (factory\<lparr>channels := (channels factory)[c := (channels factory ! c)
                   \<lparr>queue := queue (channels factory ! c) @ [dataEvent]\<rparr>]\<rparr>)
            else Suspended)"
proof -
  from reachable_well_formed [OF assms(1)] assms(2)
  have "c < length (channels factory)" "\<not> closed (channels factory ! c)"
    "capacity (channels factory ! c) = 1000"
    unfolding well_formed_def by blast+
  with assms(2) show ?thesis
    by (simp add: ProcessActiveTrackers_def Let_def)
qed

theorem data_event_queued_or_suspended_witness:
  "reachable \<lparr>connections = [7 \<mapsto> 0], channels = [\<lparr>queue = [], capacity = 1000, closed = False\<rparr>]\<rparr>
   \<and> ProcessActiveTrackers
        \<lparr>connections = [7 \<mapsto> 0], channels = [\<lparr>queue = [], capacity = 1000, closed = False\<rparr>]\<rparr>
        (DataEvent \<lparr>ConnID = 7, Direction = 0, Msg = [0x47]\<rparr>) =
      Returned \<lparr>connections = [7 \<mapsto> 0],
        channels = [\<lparr>queue = [\<lparr>ConnID = 7, Direction = 0, Msg = [0x47]\<rparr>], capacity = 1000,
                     closed = False\<rparr>]\<rparr>"
proof -
  let ?opened = "\<lparr>connections = [7 \<mapsto> 0],
      channels = [\<lparr>queue = [], capacity = 1000, closed = False\<rparr>]\<rparr> :: Factory"
  have "ProcessActiveTrackers NewFactory (OpenEvent 7) = Returned ?opened"
    by (simp add: ProcessActiveTrackers_def NewFactory_def)
  with reachable.start have r: "reachable ?opened" by (rule reachable.dispatched)
  have c: "connections ?opened (ConnID \<lparr>ConnID = 7, Direction = 0, Msg = [0x47]\<rparr>) = Some 0"
    by simp
  from r data_event_queued_or_suspended [OF r c] show ?thesis by simp
qed

subsection \<open>The worker after the close event\<close>

lemma close_closes_channel:
  assumes "ProcessActiveTrackers factory (CloseEvent connID) = Returned factory'"
    and "connections factory connID = Some c" and "c < length (channels factory)"
  shows "closed (channels factory' ! c)"
  using assms
  by (auto simp add: ProcessActiveTrackers_def Let_def split: if_splits)

lemma closed_channel_ready:
  assumes "closed ch"
  shows "select_ready msgLen False ch c \<longleftrightarrow>
           c = Receive (case queue ch of [] \<Rightarrow> zero_event msgLen | e # es \<Rightarrow> e)"
  using assms
  by (cases c) (auto simp add: select_ready_def split: list.splits)

lemma Receive_never_returns:
  "Worker_round ParseHTTPRequest ParseHTTPResponse w (Receive dataEvent) \<noteq> Returns"
  by (simp add: Worker_round_def after_capture_def Let_def split: captured.splits)

lemma closed_after_select: "closed (after_select ch c) = closed ch"
  by (cases c) (simp_all add: after_select_def)

lemma Worker_on_closed_channel:
  assumes "closed (channel r)" and "state r \<noteq> HasReturned"
    and "Worker ParseHTTPRequest ParseHTTPResponse msgLen False r cs = Some r'"
  shows "state r' \<noteq> HasReturned \<and> closed (channel r')"
  using assms
proof (induction cs arbitrary: r)
  case Nil
  then show ?case by simp
next
  case (Cons c cs)
  from Cons.prems(3) have loop: "state r = InLoop"
    and ready: "select_ready msgLen False (channel r) c"
    by (auto split: if_splits)
  from ready Cons.prems(1) obtain dataEvent where c: "c = Receive dataEvent"
    by (auto simp add: closed_channel_ready)
  show ?case
  proof (cases "Worker_round ParseHTTPRequest ParseHTTPResponse (vars r) c")
    case (GoesOn w tcs)
    let ?r = "r\<lparr>vars := w, channel := after_select (channel r) c, emitted := emitted r @ tcs\<rparr>"
    from GoesOn loop ready Cons.prems(3)
    have run: "Worker ParseHTTPRequest ParseHTTPResponse msgLen False ?r cs = Some r'"
      by simp
    from Cons.prems(1) have "closed (channel ?r)" by (simp add: closed_after_select)
    moreover from loop have "state ?r \<noteq> HasReturned" by simp
    ultimately show ?thesis using run by (rule Cons.IH)
  next
    case Returns
    with c Receive_never_returns show ?thesis by auto
  next
    case Panics
    let ?r = "r\<lparr>state := HasPanicked\<rparr>"
    from Panics loop ready Cons.prems(3)
    have run: "Worker ParseHTTPRequest ParseHTTPResponse msgLen False ?r cs = Some r'"
      by simp
    from Cons.prems(1) have "closed (channel ?r)" by simp
    moreover have "state ?r \<noteq> HasReturned" by simp
    ultimately show ?thesis using run by (rule Cons.IH)
  qed
qed

text \<open>
  On a closed channel the loop is never short of a round to run: it can be followed for
  any number of rounds, unless a panic ends it first.
\<close>

lemma Worker_on_closed_channel_goes_on:
  assumes "closed (channel r)" and "state r = InLoop"
  shows "\<exists>cs r'. Worker ParseHTTPRequest ParseHTTPResponse msgLen False r cs = Some r'
           \<and> (length cs = n \<and> state r' = InLoop \<or> state r' = HasPanicked)"
  using assms
proof (induction n arbitrary: r)
  case 0
  then have "Worker ParseHTTPRequest ParseHTTPResponse msgLen False r [] = Some r
      \<and> length ([] :: select_case list) = 0 \<and> state r = InLoop"
    by simp
  then show ?case by blast
next
  case (Suc n)
  let ?c = "Receive (case queue (channel r) of [] \<Rightarrow> zero_event msgLen | e # es \<Rightarrow> e)"
  from Suc.prems(1) have ready: "select_ready msgLen False (channel r) ?c"
    by (simp add: closed_channel_ready)
  show ?case
  proof (cases "Worker_round ParseHTTPRequest ParseHTTPResponse (vars r) ?c")
    case (GoesOn w tcs)
    let ?r = "r\<lparr>vars := w, channel := after_select (channel r) ?c, emitted := emitted r @ tcs\<rparr>"
    from Suc.prems have "closed (channel ?r)" "state ?r = InLoop"
      by (simp_all add: closed_after_select)
    from Suc.IH [OF this] obtain cs r' where
      run: "Worker ParseHTTPRequest ParseHTTPResponse msgLen False ?r cs = Some r'"
      and rest: "length cs = n \<and> state r' = InLoop \<or> state r' = HasPanicked"
      by blast
    from GoesOn ready Suc.prems(2) run
    have "Worker ParseHTTPRequest ParseHTTPResponse msgLen False r (?c # cs) = Some r'"
      by simp
    moreover from rest
    have "length (?c # cs) = Suc n \<and> state r' = InLoop \<or> state r' = HasPanicked"
      by auto
    ultimately show ?thesis by blast
  next
    case Returns
    with Receive_never_returns show ?thesis by auto
  next
    case Panics
    with ready Suc.prems(2)
    have "Worker ParseHTTPRequest ParseHTTPResponse msgLen False r [?c] = Some (r\<lparr>state := HasPanicked\<rparr>)"
      by simp
    moreover have "state (r\<lparr>state := HasPanicked\<rparr>) = HasPanicked" by simp
    ultimately show ?thesis by blast
  qed
qed

text \<open>
  Claim C7 fails on the code. After the factory has processed the close event of a
  connection, the connection's channel is closed, and a worker on that channel, with a
  context that is not cancelled, has not returned after any number of rounds of its
  loop: the receive of line 76 is ready in every round and gives zero-valued events once
  the queue is drained.
\<close>

theorem Worker_never_returns_after_close:
  assumes "ProcessActiveTrackers factory (CloseEvent connID) = Returned factory'"
    and "connections factory connID = Some c" and "c < length (channels factory)"
    and "channel r = channels factory' ! c" and "state r = InLoop"
    and "Worker ParseHTTPRequest ParseHTTPResponse msgLen False r cs = Some r'"
  shows "closed (channel r) \<and> state r' \<noteq> HasReturned"
proof -
  from close_closes_channel [OF assms(1,2,3)] assms(4) have cl: "closed (channel r)" by simp
  from assms(5) have "state r \<noteq> HasReturned" by simp
  from Worker_on_closed_channel [OF cl this assms(6)] cl show ?thesis by simp
qed

theorem Worker_never_returns_after_close_witness:
  "ProcessActiveTrackers
     \<lparr>connections = [7 \<mapsto> 0], channels = [\<lparr>queue = [], capacity = 1000, closed = False\<rparr>]\<rparr>
     (CloseEvent 7) =
   Returned \<lparr>connections = Map.empty,
     channels = [\<lparr>queue = [], capacity = 1000, closed = True\<rparr>]\<rparr>
   \<and> Worker (\<lambda>b. (None, True)) (\<lambda>b rq. (None, True)) 0 False
        \<lparr>state = InLoop, vars = new_worker,
          channel = \<lparr>queue = [], capacity = 1000, closed = True\<rparr>, emitted = []\<rparr>
        [Receive (zero_event 0), Receive (zero_event 0), Receive (zero_event 0)] =
      Some \<lparr>state = InLoop, vars = \<lparr>lastEventType = 0, req = [], res = []\<rparr>,
          channel = \<lparr>queue = [], capacity = 1000, closed = True\<rparr>, emitted = []\<rparr>
   \<and> state \<lparr>state = InLoop, vars = \<lparr>lastEventType = 0, req = [], res = []\<rparr>,
          channel = \<lparr>queue = [], capacity = 1000, closed = True\<rparr>, emitted = []\<rparr> \<noteq> HasReturned"
proof -
  let ?factory = "\<lparr>connections = [7 \<mapsto> 0],
      channels = [\<lparr>queue = [], capacity = 1000, closed = False\<rparr>]\<rparr> :: Factory"
  let ?factory' = "\<lparr>connections = Map.empty,
      channels = [\<lparr>queue = [], capacity = 1000, closed = True\<rparr>]\<rparr> :: Factory"
  let ?r = "\<lparr>state = InLoop, vars = new_worker,
      channel = \<lparr>queue = [], capacity = 1000, closed = True\<rparr>, emitted = []\<rparr> :: run"
  let ?r' = "\<lparr>state = InLoop, vars = \<lparr>lastEventType = 0, req = [], res = []\<rparr>,
      channel = \<lparr>queue = [], capacity = 1000, closed = True\<rparr>, emitted = []\<rparr> :: run"
  have a: "ProcessActiveTrackers ?factory (CloseEvent 7) = Returned ?factory'"
    by (simp add: ProcessActiveTrackers_def)
  have b: "connections ?factory 7 = Some 0" by simp
  have c: "0 < length (channels ?factory)" by simp
  have d: "channel ?r = channels ?factory' ! 0" by simp
  have e: "state ?r = InLoop" by simp
  have f: "Worker (\<lambda>b. (None, True)) (\<lambda>b rq. (None, True)) 0 False ?r
      [Receive (zero_event 0), Receive (zero_event 0), Receive (zero_event 0)] = Some ?r'"
    by (simp add: select_ready_def zero_event_def Worker_round_def after_select_def
          new_worker_def IngressTraffic_def EgressTraffic_def)
  from a f Worker_never_returns_after_close [OF a b c d e f] show ?thesis by blast
qed

subsection \<open>What the worker sends\<close>

lemma parse_and_capture_Sent:
  assumes "\<forall>b. snd (ParseHTTPRequest b) \<longrightarrow> fst (ParseHTTPRequest b) = None"
    and "\<forall>b rq. snd (ParseHTTPResponse b rq) \<longrightarrow> fst (ParseHTTPResponse b rq) = None"
    and "snd (ParseHTTPRequest [])" and "\<forall>rq. snd (ParseHTTPResponse [] rq)"
    and "parse_and_capture ParseHTTPRequest ParseHTTPResponse w = Sent tc"
  shows "req w \<noteq> [] \<and> res w \<noteq> []
       \<and> (\<exists>rq rs. ParseHTTPRequest (req w) = (Some rq, False)
            \<and> ParseHTTPResponse (res w) (Some rq) = (Some rs, False)
            \<and> capture (Some rq) (Some rs) = Sent tc)"
proof -
  obtain pq eq where pq: "ParseHTTPRequest (req w) = (pq, eq)"
    by (cases "ParseHTTPRequest (req w)")
  obtain ps es where ps: "ParseHTTPResponse (res w) pq = (ps, es)"
    by (cases "ParseHTTPResponse (res w) pq")
  from assms(5) pq ps have cap: "capture pq ps = Sent tc"
    by (simp add: parse_and_capture_def)
  then obtain rq where rq: "pq = Some rq"
    by (cases pq) (simp_all add: capture_def)
  from cap rq obtain rs where rs: "ps = Some rs"
    by (cases ps) (auto simp add: capture_def split: option.splits)
  from assms(1) pq rq have eq: "\<not> eq" by (metis fst_conv snd_conv option.distinct(1))
  from assms(2) ps rs have es: "\<not> es" by (metis fst_conv snd_conv option.distinct(1))
  from assms(1,3) pq rq have "req w \<noteq> []" by (metis fst_conv option.distinct(1))
  moreover from assms(2,4) ps rs have "res w \<noteq> []" by (metis fst_conv option.distinct(1))
  ultimately show ?thesis using pq ps rq rs eq es cap by simp
qed

text \<open>
  Claim C8. Let the two parsers return a nil pointer with every error, and an error on
  empty input. Whenever a round of the worker sends a test case, it is the only one of
  the round, the two accumulators are non-empty at that moment, both parse without an
  error, and the test case is what \<^verbatim>\<open>capture\<close> makes of the parsed request and response.
\<close>

theorem sent_test_case_parsed:
  assumes "\<forall>b. snd (ParseHTTPRequest b) \<longrightarrow> fst (ParseHTTPRequest b) = None"
    and "\<forall>b rq. snd (ParseHTTPResponse b rq) \<longrightarrow> fst (ParseHTTPResponse b rq) = None"
    and "snd (ParseHTTPRequest [])" and "\<forall>rq. snd (ParseHTTPResponse [] rq)"
    and "Worker_round ParseHTTPRequest ParseHTTPResponse w c = GoesOn w' tcs"
    and "tc \<in> set tcs"
  shows "tcs = [tc] \<and> req w' \<noteq> [] \<and> res w' \<noteq> []
       \<and> (\<exists>rq rs. ParseHTTPRequest (req w') = (Some rq, False)
            \<and> ParseHTTPResponse (res w') (Some rq) = (Some rs, False)
            \<and> capture (Some rq) (Some rs) = Sent tc)"
    (is ?sent)
proof -
  have sent: "\<And>v u. after_capture (parse_and_capture ParseHTTPRequest ParseHTTPResponse v) u
      = GoesOn w' tcs \<Longrightarrow> req u = req v \<Longrightarrow> res u = res v \<Longrightarrow> ?sent"
  proof -
    fix v u
    assume a: "after_capture (parse_and_capture ParseHTTPRequest ParseHTTPResponse v) u = GoesOn w' tcs"
      and same: "req u = req v" "res u = res v"
    from a assms(6) have s: "parse_and_capture ParseHTTPRequest ParseHTTPResponse v = Sent tc"
      and w': "w' = u" and tcs: "tcs = [tc]"
      by (auto simp add: after_capture_def split: captured.splits)
    from parse_and_capture_Sent [OF assms(1,2,3,4) s] same w' tcs show ?sent by simp
  qed
  show ?thesis
  proof (cases c)
    case (Receive dataEvent)
    let ?v = "if Direction dataEvent = IngressTraffic then w\<lparr>req := req w @ Msg dataEvent\<rparr>
              else if Direction dataEvent = EgressTraffic then w\<lparr>res := res w @ Msg dataEvent\<rparr>
              else w"
    from Receive assms(5,6)
    have "after_capture (parse_and_capture ParseHTTPRequest ParseHTTPResponse ?v)
            (?v\<lparr>lastEventType := Direction dataEvent\<rparr>) = GoesOn w' tcs"
      by (auto simp add: Worker_round_def Let_def split: if_splits)
    then show ?thesis by (rule sent) simp_all
  next
    case After2s
    from After2s assms(5,6)
    have "after_capture (parse_and_capture ParseHTTPRequest ParseHTTPResponse w)
            (w\<lparr>lastEventType := -1\<rparr>) = GoesOn w' tcs"
      by (auto simp add: Worker_round_def split: if_splits)
    then show ?thesis by (rule sent) simp_all
  next
    case CtxDone
    with assms(5) show ?thesis by (simp add: Worker_round_def)
  qed
qed

theorem sent_test_case_parsed_witness:
  "Worker_round
     (\<lambda>b. if b = [] then (None, True)
          else (Some \<lparr>Method = ''GET'', ProtoMajor = 1, ProtoMinor = 1, Host = ''x'',
                        RequestURI = ''/'', Body = Some []\<rparr>, False))
     (\<lambda>b rq. if b = [] then (None, True)
          else (Some \<lparr>StatusCode = 200, RespBody = Some [0x6F, 0x6B]\<rparr>, False))
     \<lparr>lastEventType = 1, req = [0x47], res = [0x48]\<rparr>
     (Receive \<lparr>ConnID = 42, Direction = 0, Msg = [0x47]\<rparr>) =
   GoesOn \<lparr>lastEventType = 0, req = [0x47, 0x47], res = [0x48]\<rparr>
     [\<lparr>HTTPReq_Method = ''GET'', HTTPReq_ProtoMajor = 1, HTTPReq_ProtoMinor = 1,
        HTTPReq_URL = ''http://x/'', HTTPReq_Body = string_of_bytes [],
        HTTPResp_StatusCode = 200, HTTPResp_Body = string_of_bytes [0x6F, 0x6B]\<rparr>]
   \<and> req \<lparr>lastEventType = 0, req = [0x47, 0x47], res = [0x48]\<rparr> \<noteq> []
   \<and> res \<lparr>lastEventType = 0, req = [0x47, 0x47], res = [0x48]\<rparr> \<noteq> []"
proof -
  let ?rq = "\<lambda>b :: byte list. if b = [] then (None, True)
          else (Some \<lparr>Method = ''GET'', ProtoMajor = 1, ProtoMinor = 1, Host = ''x'',
                        RequestURI = ''/'', Body = Some []\<rparr>, False)"
  let ?rs = "\<lambda>(b :: byte list) (rq :: http_Request option). if b = [] then (None, True)
          else (Some \<lparr>StatusCode = 200, RespBody = Some [0x6F, 0x6B]\<rparr>, False)"
  let ?tc = "\<lparr>HTTPReq_Method = ''GET'', HTTPReq_ProtoMajor = 1, HTTPReq_ProtoMinor = 1,
        HTTPReq_URL = ''http://x/'', HTTPReq_Body = string_of_bytes [],
        HTTPResp_StatusCode = 200, HTTPResp_Body = string_of_bytes [0x6F, 0x6B]\<rparr>"
  have h1: "\<forall>b. snd (?rq b) \<longrightarrow> fst (?rq b) = None" by simp
  have h2: "\<forall>b rq. snd (?rs b rq) \<longrightarrow> fst (?rs b rq) = None" by simp
  have h3: "snd (?rq [])" by simp
  have h4: "\<forall>rq. snd (?rs [] rq)" by simp
  have h5: "Worker_round ?rq ?rs \<lparr>lastEventType = 1, req = [0x47], res = [0x48]\<rparr>
      (Receive \<lparr>ConnID = 42, Direction = 0, Msg = [0x47]\<rparr>) =
      GoesOn \<lparr>lastEventType = 0, req = [0x47, 0x47], res = [0x48]\<rparr> [?tc]"
    by (simp add: Worker_round_def after_capture_def parse_and_capture_def capture_def
          IngressTraffic_def EgressTraffic_def)
  have h6: "?tc \<in> set [?tc]" by simp
  from h5 sent_test_case_parsed [OF h1 h2 h3 h4 h5 h6] show ?thesis by blast
qed

end
